theory Spec2Isabelle
  imports Main "HOL-Library.Sublist"
begin

section \<open>The to\_tie generator (utils/configuration\_store/to\_tie\_generator.py)\<close>

text \<open>
  The script builds the text of \<^verbatim>\<open>to_tie.hpp\<close> from one integer. Python's
  unbounded integers are \<^typ>\<open>int\<close>, its strings are \<^typ>\<open>string\<close>, the file system
  is a map from paths to contents, and the process result records the exit status.
\<close>

subsection \<open>Python primitives used by the script\<close>

text \<open>Decimal rendering of an integer, as an f-string renders \<^verbatim>\<open>{i}\<close>.\<close>

definition digit_char :: "nat \<Rightarrow> char" where
  "digit_char d = ''0123456789'' ! d"

function str_nat :: "nat \<Rightarrow> string" where
  "str_nat n = (if n < 10 then [digit_char n] else str_nat (n div 10) @ [digit_char (n mod 10)])"
  by pat_completeness auto
termination
  by (relation "measure id") auto

declare str_nat.simps [simp del]

definition str_int :: "int \<Rightarrow> string" where
  "str_int i = (if i < 0 then CHR ''-'' # str_nat (nat (- i)) else str_nat (nat i))"

text \<open>\<^verbatim>\<open>range(a, b)\<close> over integers: empty when \<open>b \<le> a\<close>.\<close>

definition py_range :: "int \<Rightarrow> int \<Rightarrow> int list" where
  "py_range a b = [a..b - 1]"

text \<open>\<^verbatim>\<open>sep.join(xs)\<close>.\<close>

fun join :: "string \<Rightarrow> string list \<Rightarrow> string" where
  "join sep [] = []"
| "join sep [x] = x"
| "join sep (x # y # ys) = x @ sep @ join sep (y # ys)"

subsection \<open>generate\_tuple\<close>

text \<open>
  \<^verbatim>\<open>members = ", ".join([f"p{i}" for i in range(1, num_of_elements + 1)])\<close>:
  the placeholder names are kept as a list, \<open>members\<close> is their joined text.
\<close>

definition placeholders :: "int \<Rightarrow> string list" where
  "placeholders num_of_elements = map (\<lambda>i. ''p'' @ str_int i) (py_range 1 (num_of_elements + 1))"

definition members :: "int \<Rightarrow> string" where
  "members num_of_elements = join '', '' (placeholders num_of_elements)"

definition case_body :: "int \<Rightarrow> string" where
  "case_body num_of_elements =
     (if num_of_elements = 0 then ''return std::tie();''
      else ''auto& ['' @ members num_of_elements @ ''] = t;\<newline>return std::tie(''
           @ members num_of_elements @ '');\<newline>'')"

definition generate_tuple :: "int \<Rightarrow> string" where
  "generate_tuple num_of_elements =
     ''if constexpr (arity == '' @ str_int num_of_elements @ ''){\<newline>''
     @ case_body num_of_elements @ ''\<newline>}\<newline>''"

subsection \<open>The text written by main\<close>

definition header :: string where
  "header =
     ''\<newline>#pragma once\<newline>#include '' @ [CHR 0x22] @ ''aggregate_arity.hpp'' @ [CHR 0x22]
     @ ''\<newline>namespace detail {\<newline>''
     @ ''template <typename T, std::size_t arity = aggregate_arity<std::remove_cv_t<T>>::size() - 1>''
     @ ''\<newline>constexpr auto to_tie( T &t){\<newline>                   ''"

text \<open>\<^verbatim>\<open>[generate_tuple(i) for i in range(0, num_of_cases)]\<close> and its join.\<close>

definition case_branches :: "int \<Rightarrow> string list" where
  "case_branches num_of_cases = map generate_tuple (py_range 0 num_of_cases)"

definition cases :: "int \<Rightarrow> string" where
  "cases num_of_cases = join '' else '' (case_branches num_of_cases)"

definition overflow_branch :: "int \<Rightarrow> string" where
  "overflow_branch num_of_cases =
     ''else if constexpr (arity >= '' @ str_int num_of_cases
     @ '') { static_assert(false,'' @ [CHR 0x22]
     @ ''Generate new to_tie function, the script is located in utils/configuration_store''
     @ [CHR 0x22] @ '');\<newline> }''"

definition trailer :: string where
  "trailer = ''};}''"

subsection \<open>Command-line parsing\<close>

text \<open>
  \<^verbatim>\<open>int(s)\<close> on a string, which argparse applies to the positional argument
  (\<^verbatim>\<open>type=int\<close>): surrounding whitespace is stripped, one sign is allowed, the digits
  may be grouped by single underscores, and a string of more than
  \<open>int_max_str_digits\<close> digits is refused (CPython's default limit on the conversion
  between \<^verbatim>\<open>str\<close> and \<^verbatim>\<open>int\<close>). Characters are code points below 256. The same limit
  on printing \<open>num_of_cases\<close> is not modelled: an accepted argument reaches it only at
  \<open>10 ^ 4300 - 1\<close>, after more than \<open>10 ^ 4300\<close> branches.
\<close>

definition is_space :: "char \<Rightarrow> bool" where
  "is_space c = (c \<in> set [CHR 0x09, CHR 0x0A, CHR 0x0B, CHR 0x0C, CHR 0x0D,
                            CHR 0x20, CHR 0x85, CHR 0xA0])"

definition strip :: "string \<Rightarrow> string" where
  "strip s = rev (dropWhile is_space (rev (dropWhile is_space s)))"

definition is_digit :: "char \<Rightarrow> bool" where
  "is_digit c = (c \<in> set ''0123456789'')"

definition digit_val :: "char \<Rightarrow> nat" where
  "digit_val c = of_char c - 48"

fun digits_ok :: "bool \<Rightarrow> string \<Rightarrow> bool" where
  "digits_ok prev [] = prev"
| "digits_ok prev (c # cs) =
     (if is_digit c then digits_ok True cs
      else if c = CHR ''_'' \<and> prev then digits_ok False cs
      else False)"

definition int_max_str_digits :: nat where
  "int_max_str_digits = 4300"

definition py_digits :: "string \<Rightarrow> nat option" where
  "py_digits s =
     (if digits_ok False s \<and> length (filter is_digit s) \<le> int_max_str_digits
      then Some (foldl (\<lambda>a c. 10 * a + digit_val c) 0 (filter is_digit s))
      else None)"

definition py_int :: "string \<Rightarrow> int option" where
  "py_int s =
     (case strip s of
        [] \<Rightarrow> None
      | c # cs \<Rightarrow>
          if c = CHR ''-'' then map_option (\<lambda>n. - int n) (py_digits cs)
          else if c = CHR ''+'' then map_option int (py_digits cs)
          else map_option int (py_digits (c # cs)))"

text \<open>
  The parser of \<open>main\<close>: argparse's default help option and one required positional
  argument converted by \<open>py_int\<close>. argparse first reads every word, then consumes the
  words from left to right. A word is read as
  \<^item> \<open>Positional\<close>: a value for \<open>num_of_cases\<close>;
  \<^item> \<open>Help\<close>: the help option, which prints the help text and ends the process;
  \<^item> \<open>Reject\<close>: an option given an argument it does not take, a usage error;
  \<^item> \<open>Unknown\<close>: an unrecognised option, reported once all words are consumed.

  All argparse versions agree on the empty word, the words that do not start with
  \<^verbatim>\<open>-\<close>, the word \<^verbatim>\<open>-\<close>, the words that start with \<^verbatim>\<open>--\<close> (the long option, its
  abbreviations, the forms with \<^verbatim>\<open>=\<close>), the clusters \<^verbatim>\<open>-h\<close>, \<^verbatim>\<open>-hh\<close>, \<open>\<dots>\<close>, the negative
  integers and the words with a space. On the other words that start with one \<^verbatim>\<open>-\<close>
  they differ: a cluster with a further letter such as \<^verbatim>\<open>-hx\<close> is a usage error in
  older versions and prints the help in newer ones, and the number-like words are not
  the same in all. These words are read by the parameter \<open>version\<close>.
\<close>

datatype reading = Positional | Help | Reject | Unknown

datatype parse_result = Namespace int | Help_exit | Usage_error

definition chomp :: "string \<Rightarrow> string" where
  "chomp a = (if a \<noteq> [] \<and> last a = CHR ''\<newline>'' then butlast a else a)"

definition negative_integer :: "string \<Rightarrow> bool" where
  "negative_integer a =
     (case chomp a of
        [] \<Rightarrow> False
      | c # cs \<Rightarrow> c = CHR ''-'' \<and> cs \<noteq> [] \<and> list_all is_digit cs)"

definition read_word :: "(string \<Rightarrow> reading) \<Rightarrow> string \<Rightarrow> reading" where
  "read_word version a =
     (if a = [] \<or> hd a \<noteq> CHR ''-'' \<or> length a = 1 \<or> a = ''--'' then Positional
      else if a = ''-h'' \<or> a = ''--help'' then Help
      else if hd (tl a) = CHR ''-'' then
        (if prefix (takeWhile (\<lambda>c. c \<noteq> CHR ''='') a) ''--help''
         then (if CHR ''='' \<in> set a then Reject else Help)
         else if CHR '' '' \<in> set a then Positional
         else Unknown)
      else if hd (tl a) = CHR ''h'' then
        (if list_all (\<lambda>c. c = CHR ''h'') (tl a) then Help else version a)
      else if negative_integer a \<or> CHR '' '' \<in> set a then Positional
      else version a)"

fun consume ::
  "(string \<Rightarrow> reading) \<Rightarrow> bool \<Rightarrow> int option \<Rightarrow> bool \<Rightarrow> string list \<Rightarrow> parse_result"
where
  "consume version dd v extras [] =
     (case v of
        None \<Rightarrow> Usage_error
      | Some n \<Rightarrow> if extras then Usage_error else Namespace n)"
| "consume version dd v extras (a # as) =
     (if \<not> dd \<and> a = ''--'' then consume version True v extras as
      else
        (case (if dd then Positional else read_word version a) of
           Help \<Rightarrow> Help_exit
         | Reject \<Rightarrow> Usage_error
         | Unknown \<Rightarrow> consume version dd v True as
         | Positional \<Rightarrow>
             (case v of
                None \<Rightarrow> (case py_int a of
                           None \<Rightarrow> Usage_error
                         | Some n \<Rightarrow> consume version dd (Some n) extras as)
              | Some n \<Rightarrow> consume version dd v True as)))"

definition parse_args :: "(string \<Rightarrow> reading) \<Rightarrow> string list \<Rightarrow> parse_result" where
  "parse_args version argv = consume version False None False argv"

text \<open>
  Two readings of the words left to \<open>version\<close>. Both take a word as positional when
  it matches \<^verbatim>\<open>^-\d+$|^-\d*\.\d+$\<close> and as unknown otherwise, unless it starts with
  \<^verbatim>\<open>-h\<close>. In a cluster \<^verbatim>\<open>-h...\<close> the older argparse accepts further \<^verbatim>\<open>h\<close>s, also
  after one \<^verbatim>\<open>=\<close>, and raises a usage error at any other character; the newer one
  (CPython 3.11.10, 3.12.3) raises the error at \<^verbatim>\<open>=\<close> and \<^verbatim>\<open>-\<close> and otherwise leaves the
  rest of the word unrecognised and prints the help.
\<close>

definition negative_number :: "string \<Rightarrow> bool" where
  "negative_number a =
     (case chomp a of
        [] \<Rightarrow> False
      | c # cs \<Rightarrow>
          c = CHR ''-'' \<and>
          ((cs \<noteq> [] \<and> list_all is_digit cs) \<or>
           (case dropWhile is_digit cs of
              [] \<Rightarrow> False
            | d # ds \<Rightarrow> d = CHR ''.'' \<and> ds \<noteq> [] \<and> list_all is_digit ds)))"

definition argparse_older :: "string \<Rightarrow> reading" where
  "argparse_older a =
     (if prefix ''-h'' a then
        (case drop 2 a of
           [] \<Rightarrow> Help
         | c # cs \<Rightarrow>
             if list_all (\<lambda>c. c = CHR ''h'') (c # cs) then Help
             else if c = CHR ''='' \<and> cs \<noteq> [] \<and> list_all (\<lambda>c. c = CHR ''h'') cs then Help
             else Reject)
      else if negative_number a then Positional
      else Unknown)"

fun cluster_newer :: "string \<Rightarrow> reading" where
  "cluster_newer [] = Help"
| "cluster_newer (c # cs) =
     (if c = CHR ''-'' then Reject
      else if c = CHR ''h'' then
        (case cs of
           [] \<Rightarrow> Help
         | d # ds \<Rightarrow> if d = CHR ''='' then Reject else cluster_newer cs)
      else Help)"

definition argparse_newer :: "string \<Rightarrow> reading" where
  "argparse_newer a =
     (if prefix ''-h'' a then
        (case drop 2 a of
           [] \<Rightarrow> Help
         | c # cs \<Rightarrow> if c = CHR ''='' then Reject else cluster_newer (c # cs))
      else if negative_number a then Positional
      else Unknown)"

subsection \<open>main\<close>

text \<open>
  The file system maps a path to the file's contents. \<^verbatim>\<open>open(path, "w")\<close> creates or
  truncates the file, each \<^verbatim>\<open>write\<close> appends to it; opening and writing are taken
  to succeed. When argparse ends the process (usage error with status 2, help with
  status 0) nothing after \<^verbatim>\<open>parse_args\<close> runs.
\<close>

type_synonym fs = "string \<rightharpoonup> string"

definition open_w :: "string \<Rightarrow> fs \<Rightarrow> fs" where
  "open_w path fs = fs(path \<mapsto> [])"

definition file_write :: "string \<Rightarrow> string \<Rightarrow> fs \<Rightarrow> fs" where
  "file_write path s fs = fs(path \<mapsto> (case fs path of None \<Rightarrow> s | Some old \<Rightarrow> old @ s))"

datatype printed = Nothing | Help_message | Usage_diagnostic

record process =
  status :: int
  message :: printed
  files :: fs

definition write_to_tie :: "int \<Rightarrow> fs \<Rightarrow> fs" where
  "write_to_tie num_of_cases fs =
     (let f1 = open_w ''to_tie.hpp'' fs;
          f2 = file_write ''to_tie.hpp'' header f1;
          f3 = file_write ''to_tie.hpp'' (cases num_of_cases) f2;
          f4 = file_write ''to_tie.hpp'' (overflow_branch num_of_cases) f3
      in file_write ''to_tie.hpp'' trailer f4)"

definition main :: "(string \<Rightarrow> reading) \<Rightarrow> string list \<Rightarrow> fs \<Rightarrow> process" where
  "main version argv fs =
     (case parse_args version argv of
        Help_exit \<Rightarrow> \<lparr>status = 0, message = Help_message, files = fs\<rparr>
      | Usage_error \<Rightarrow> \<lparr>status = 2, message = Usage_diagnostic, files = fs\<rparr>
      | Namespace a \<Rightarrow>
          (let num_of_cases = a + 1
           in \<lparr>status = 0, message = Nothing, files = write_to_tie num_of_cases fs\<rparr>))"

subsection \<open>Occurrences of a pattern in a text\<close>

fun count_occ :: "'a list \<Rightarrow> 'a list \<Rightarrow> nat" where
  "count_occ p [] = 0"
| "count_occ p (x # xs) = (if prefix p (x # xs) then 1 else 0) + count_occ p xs"

section \<open>Auxiliary lemmas\<close>

lemma digit_cases: "d < 10 \<Longrightarrow> d = 0 \<or> d = 1 \<or> d = 2 \<or> d = 3 \<or> d = 4 \<or> d = 5 \<or> d = 6 \<or> d = 7 \<or> d = 8 \<or> d = (9::nat)"
  by arith

lemma is_digit_digit_char: "d < 10 \<Longrightarrow> is_digit (digit_char d)"
  using digit_cases [of d] by (auto simp: is_digit_def digit_char_def)

lemma digit_val_digit_char: "d < 10 \<Longrightarrow> digit_val (digit_char d) = d"
  using digit_cases [of d] by (auto simp: digit_val_def digit_char_def)

lemma str_nat_digits: "list_all is_digit (str_nat n)"
proof (induction n rule: str_nat.induct)
  case (1 n)
  show ?case
  proof (cases "n < 10")
    case True
    then show ?thesis by (simp add: str_nat.simps [of n] is_digit_digit_char)
  next
    case False
    with 1 show ?thesis by (simp add: str_nat.simps [of n] is_digit_digit_char)
  qed
qed

lemma str_nat_nonempty: "str_nat n \<noteq> []"
  by (simp add: str_nat.simps [of n])

lemma str_nat_value: "foldl (\<lambda>a c. 10 * a + digit_val c) 0 (str_nat n) = n"
proof (induction n rule: str_nat.induct)
  case (1 n)
  show ?case
  proof (cases "n < 10")
    case True
    then show ?thesis by (simp add: str_nat.simps [of n] digit_val_digit_char)
  next
    case False
    with 1 show ?thesis by (simp add: str_nat.simps [of n] digit_val_digit_char)
  qed
qed

lemma str_nat_length_le: "n < 10 ^ d \<Longrightarrow> 0 < d \<Longrightarrow> length (str_nat n) \<le> d"
proof (induction n arbitrary: d rule: str_nat.induct)
  case (1 n)
  show ?case
  proof (cases "n < 10")
    case True
    then show ?thesis using "1.prems" by (simp add: str_nat.simps [of n])
  next
    case False
    obtain e where e: "d = Suc e" using "1.prems" by (cases d) auto
    have "e \<noteq> 0" using False "1.prems" e by (cases e) auto
    moreover have "n div 10 < 10 ^ e" using "1.prems" e by (simp add: less_mult_imp_div_less mult.commute)
    ultimately have "length (str_nat (n div 10)) \<le> e" using "1.IH" [of e] False by simp
    then show ?thesis using False e by (simp add: str_nat.simps [of n])
  qed
qed

lemma str_nat_length_gt: "10 ^ d \<le> n \<Longrightarrow> d < length (str_nat n)"
proof (induction n arbitrary: d rule: str_nat.induct)
  case (1 n)
  show ?case
  proof (cases d)
    case 0
    then show ?thesis using str_nat_nonempty [of n] by (cases "str_nat n") auto
  next
    case (Suc e)
    have "(1::nat) \<le> 10 ^ e" by simp
    then have "(10::nat) * 1 \<le> 10 * 10 ^ e" by (rule mult_le_mono2)
    moreover have "10 * 10 ^ e \<le> n" using "1.prems" Suc by simp
    ultimately have "(10::nat) * 1 \<le> n" by (rule order_trans)
    then have ge: "10 \<le> n" by simp
    have "10 ^ e \<le> n div 10"
    proof -
      have "10 * 10 ^ e \<le> n" using "1.prems" Suc by simp
      then have "(10 * 10 ^ e) div 10 \<le> n div 10" by (rule div_le_mono)
      then show ?thesis by simp
    qed
    then have "e < length (str_nat (n div 10))" using "1.IH" [of e] ge by simp
    then show ?thesis using ge Suc by (simp add: str_nat.simps [of n])
  qed
qed

lemma digits_ok_all_digits: "list_all is_digit s \<Longrightarrow> digits_ok b s = (b \<or> s \<noteq> [])"
  by (induction s arbitrary: b) auto

lemma filter_all: "list_all P s \<Longrightarrow> filter P s = s"
  by (induction s) auto

lemma py_digits_str_nat:
  "py_digits (str_nat n) = (if length (str_nat n) \<le> int_max_str_digits then Some n else None)"
  by (simp add: py_digits_def digits_ok_all_digits str_nat_digits str_nat_nonempty filter_all str_nat_value)

lemma digit_not_space: "is_digit c \<Longrightarrow> \<not> is_space c"
  by (auto simp: is_digit_def is_space_def)

lemma strip_no_space: "list_all (\<lambda>c. \<not> is_space c) s \<Longrightarrow> strip s = s"
proof -
  assume a: "list_all (\<lambda>c. \<not> is_space c) s"
  have d: "dropWhile is_space t = t" if "list_all (\<lambda>c. \<not> is_space c) t" for t
    using that by (cases t) auto
  have "list_all (\<lambda>c. \<not> is_space c) (rev s)" using a by (simp add: list_all_iff)
  then show ?thesis using a by (simp add: strip_def d)
qed

lemma str_nat_no_space: "list_all (\<lambda>c. \<not> is_space c) (str_nat n)"
  using str_nat_digits [of n] by (auto simp: list_all_iff digit_not_space)

lemma str_nat_not_sign: "hd (str_nat n) \<noteq> CHR ''-'' \<and> hd (str_nat n) \<noteq> CHR ''+''"
proof -
  have "is_digit (hd (str_nat n))"
    using str_nat_digits [of n] str_nat_nonempty [of n] by (cases "str_nat n") auto
  then show ?thesis by (auto simp: is_digit_def)
qed

lemma py_int_str_int:
  "py_int (str_int a) =
     (if length (str_nat (nat \<bar>a\<bar>)) \<le> int_max_str_digits then Some a else None)"
proof (cases "a < 0")
  case True
  have "list_all (\<lambda>c. \<not> is_space c) (CHR ''-'' # str_nat (nat (- a)))"
    using str_nat_no_space by (simp add: is_space_def)
  then have "strip (str_int a) = CHR ''-'' # str_nat (nat (- a))"
    using True by (simp add: str_int_def strip_no_space)
  moreover have "nat \<bar>a\<bar> = nat (- a)" using True by simp
  ultimately show ?thesis using True by (simp add: py_int_def py_digits_str_nat)
next
  case False
  have s: "strip (str_int a) = str_nat (nat a)"
    using False by (simp add: str_int_def strip_no_space str_nat_no_space)
  obtain c cs where cs: "str_nat (nat a) = c # cs"
    using str_nat_nonempty [of "nat a"] by (cases "str_nat (nat a)") auto
  have "c \<noteq> CHR ''-'' \<and> c \<noteq> CHR ''+''" using str_nat_not_sign [of "nat a"] cs by simp
  moreover have "py_digits (c # cs) = (if length (c # cs) \<le> int_max_str_digits then Some (nat a) else None)"
    using py_digits_str_nat [of "nat a"] cs by simp
  moreover have "nat \<bar>a\<bar> = nat a" using False by simp
  ultimately show ?thesis using False s cs by (simp add: py_int_def)
qed

lemma digits_within_limit:
  "\<bar>a\<bar> < 10 ^ int_max_str_digits \<Longrightarrow> length (str_nat (nat \<bar>a\<bar>)) \<le> int_max_str_digits"
proof -
  assume "\<bar>a\<bar> < 10 ^ int_max_str_digits"
  then have "nat \<bar>a\<bar> < 10 ^ int_max_str_digits"
    by (simp add: nat_less_iff)
  moreover have "0 < int_max_str_digits" by (simp add: int_max_str_digits_def)
  ultimately show ?thesis by (rule str_nat_length_le)
qed

lemma digits_beyond_limit:
  "10 ^ int_max_str_digits \<le> \<bar>a\<bar> \<Longrightarrow> \<not> length (str_nat (nat \<bar>a\<bar>)) \<le> int_max_str_digits"
proof -
  assume "10 ^ int_max_str_digits \<le> \<bar>a\<bar>"
  then have "10 ^ int_max_str_digits \<le> nat \<bar>a\<bar>"
    by (simp add: le_nat_iff)
  then have "int_max_str_digits < length (str_nat (nat \<bar>a\<bar>))" by (rule str_nat_length_gt)
  then show ?thesis by simp
qed

lemma str_int_cases:
  obtains (neg) ds where "str_int a = CHR ''-'' # ds" "ds \<noteq> []" "list_all is_digit ds" "a < 0"
        | (nonneg) d ds where "str_int a = d # ds" "list_all is_digit (d # ds)" "0 \<le> a"
proof (cases "a < 0")
  case True
  then show ?thesis
    using neg [of "str_nat (nat (- a))"] by (simp add: str_int_def str_nat_digits str_nat_nonempty)
next
  case False
  obtain c cs where cs: "str_nat (nat a) = c # cs"
    using str_nat_nonempty [of "nat a"] by (cases "str_nat (nat a)") auto
  then show ?thesis using False nonneg [of c cs] str_nat_digits [of "nat a"]
    by (simp add: str_int_def)
qed

lemma str_int_not_ddash: "str_int a \<noteq> ''--''"
  by (cases a rule: str_int_cases) (auto simp: is_digit_def)

lemma read_word_str_int: "read_word version (str_int a) = Positional"
proof (cases a rule: str_int_cases)
  case (neg ds)
  obtain d ds' where d: "ds = d # ds'" "is_digit d" using neg by (cases ds) auto
  have "is_digit (last ds)" using neg by (simp add: list_all_iff)
  then have "last ds \<noteq> CHR ''\<newline>''" by (auto simp: is_digit_def)
  then have "chomp (CHR ''-'' # ds) = CHR ''-'' # ds" using neg by (simp add: chomp_def)
  then have n: "negative_integer (CHR ''-'' # ds)" using neg by (simp add: negative_integer_def)
  have "d \<noteq> CHR ''-''" "d \<noteq> CHR ''h''" using d by (auto simp: is_digit_def)
  then show ?thesis using neg(1) d(1) n by (simp add: read_word_def)
next
  case (nonneg d ds)
  then show ?thesis by (auto simp: read_word_def is_digit_def)
qed

lemma parse_args_str_int:
  "parse_args version [str_int a] =
     (if length (str_nat (nat \<bar>a\<bar>)) \<le> int_max_str_digits then Namespace a else Usage_error)"
  by (simp add: parse_args_def str_int_not_ddash read_word_str_int py_int_str_int)

lemma write_to_tie_eq:
  "write_to_tie n fs = fs(''to_tie.hpp'' \<mapsto> header @ cases n @ overflow_branch n @ trailer)"
  by (simp add: write_to_tie_def open_w_def file_write_def Let_def)

lemma main_Namespace:
  "parse_args version argv = Namespace a \<Longrightarrow>
   main version argv fs = \<lparr>status = 0, message = Nothing,
     files = fs(''to_tie.hpp'' \<mapsto> header @ cases (a + 1) @ overflow_branch (a + 1) @ trailer)\<rparr>"
  by (simp add: main_def write_to_tie_eq Let_def)

lemma main_Usage_error:
  "parse_args version argv = Usage_error \<Longrightarrow>
   main version argv fs = \<lparr>status = 2, message = Usage_diagnostic, files = fs\<rparr>"
  by (simp add: main_def)

lemma main_Help_exit:
  "parse_args version argv = Help_exit \<Longrightarrow>
   main version argv fs = \<lparr>status = 0, message = Help_message, files = fs\<rparr>"
  by (simp add: main_def)

lemma main_str_int:
  "\<bar>a\<bar> < 10 ^ int_max_str_digits \<Longrightarrow>
   main version [str_int a] fs = \<lparr>status = 0, message = Nothing,
     files = fs(''to_tie.hpp'' \<mapsto> header @ cases (a + 1) @ overflow_branch (a + 1) @ trailer)\<rparr>"
  by (rule main_Namespace) (simp add: parse_args_str_int digits_within_limit)

lemma main_str_int_refused:
  "10 ^ int_max_str_digits \<le> \<bar>a\<bar> \<Longrightarrow>
   main version [str_int a] fs = \<lparr>status = 2, message = Usage_diagnostic, files = fs\<rparr>"
  by (rule main_Usage_error) (simp add: parse_args_str_int digits_beyond_limit)

lemma str_nat_inj: "str_nat m = str_nat n \<Longrightarrow> m = n"
  by (metis str_nat_value)

lemma str_int_inj: "(str_int a = str_int b) = (a = b)"
proof
  assume e: "str_int a = str_int b"
  have d: "hd (str_nat n) \<noteq> CHR ''-''" for n using str_nat_not_sign [of n] by simp
  have ne: "str_nat n \<noteq> CHR ''-'' # t" for n t using d [of n] by (cases "str_nat n") auto
  show "a = b"
  proof (cases "a < 0")
    case True
    show ?thesis
    proof (cases "b < 0")
      case bneg: True
      then have "str_nat (nat (- a)) = str_nat (nat (- b))" using e True by (simp add: str_int_def)
      then have "nat (- a) = nat (- b)" by (rule str_nat_inj)
      then show ?thesis using True bneg by simp
    next
      case False
      then show ?thesis using e True ne [of "nat b"] by (simp add: str_int_def) metis
    qed
  next
    case False
    show ?thesis
    proof (cases "b < 0")
      case True
      then show ?thesis using e False ne [of "nat a"] by (simp add: str_int_def)
    next
      case bnn: False
      then have "str_nat (nat a) = str_nat (nat b)" using e False by (simp add: str_int_def)
      then have "nat a = nat b" by (rule str_nat_inj)
      then show ?thesis using False bnn by simp
    qed
  qed
next
  assume "a = b"
  then show "str_int a = str_int b" by (rule arg_cong)
qed

lemma py_range_upto: "py_range 0 (n + 1) = [0..n]"
  by (simp add: py_range_def)

lemma case_branches_length: "length (case_branches (n + 1)) = nat (n + 1)"
  by (simp add: case_branches_def py_range_def)

lemma case_branches_nth: "0 \<le> k \<Longrightarrow> k \<le> n \<Longrightarrow> case_branches (n + 1) ! nat k = generate_tuple k"
  by (simp add: case_branches_def py_range_def)

lemma case_branches_neg: "n \<le> 0 \<Longrightarrow> case_branches n = []"
  by (simp add: case_branches_def py_range_def)

lemma case_branches_append:
  "0 \<le> n \<Longrightarrow> n \<le> m \<Longrightarrow> case_branches m = case_branches n @ map generate_tuple [n..m - 1]"
proof -
  assume a: "0 \<le> n" "n \<le> m"
  show ?thesis
  proof (cases "n = 0")
    case True
    then show ?thesis by (simp add: case_branches_def py_range_def)
  next
    case False
    then have "[0..m - 1] = [0..n - 1] @ [(n - 1) + 1..m - 1]"
      using a by (intro upto_split2) auto
    then show ?thesis by (simp add: case_branches_def py_range_def)
  qed
qed

lemma count_occ_skip:
  "p \<noteq> [] \<Longrightarrow> hd p \<notin> set a \<Longrightarrow> count_occ p (a @ b) = count_occ p b"
  by (induction a) (auto simp: prefix_def neq_Nil_conv)

lemma char_in_str_int: "c \<in> set (str_int a) \<Longrightarrow> c = CHR ''-'' \<or> is_digit c"
  using str_nat_digits [of "nat (- a)"] str_nat_digits [of "nat a"]
  by (simp add: str_int_def list_all_iff split: if_splits) blast+

lemma set_join: "set (join sep xs) \<subseteq> set sep \<union> (\<Union>x\<in>set xs. set x)"
proof (induction sep xs rule: join.induct)
  case (1 sep)
  show ?case by simp
next
  case (2 sep x)
  show ?case by simp
next
  case (3 sep x y ys)
  have "set (join sep (x # y # ys)) = set x \<union> set sep \<union> set (join sep (y # ys))"
    by (simp add: Un_assoc)
  also have "\<dots> \<subseteq> set x \<union> set sep \<union> (set sep \<union> (\<Union>x\<in>set (y # ys). set x))"
    using 3 by blast
  also have "\<dots> \<subseteq> set sep \<union> (\<Union>x\<in>set (x # y # ys). set x)"
    by (simp only: set_simps UN_insert) blast
  finally show ?case .
qed

lemma char_in_members:
  assumes "c \<in> set (members k)"
  shows "c = CHR '','' \<or> c = CHR '' '' \<or> c = CHR ''p'' \<or> c = CHR ''-'' \<or> is_digit c"
proof -
  have "c \<in> set '', '' \<union> (\<Union>x\<in>set (placeholders k). set x)"
    using assms set_join [of "'', ''" "placeholders k"] unfolding members_def by blast
  then consider "c \<in> set '', ''" | x where "x \<in> set (placeholders k)" "c \<in> set x" by blast
  then show ?thesis
  proof cases
    case 1
    then have "c = CHR '','' \<or> c = CHR '' ''" by simp
    then show ?thesis by blast
  next
    case 2
    then obtain i where "x = CHR ''p'' # str_int i" unfolding placeholders_def by (simp add: image_iff) blast
    with 2 have "c = CHR ''p'' \<or> c \<in> set (str_int i)" by simp
    then show ?thesis using char_in_str_int [of c i] by blast
  qed
qed

lemma i_notin_str_int: "CHR ''i'' \<notin> set (str_int a)"
  using char_in_str_int [of "CHR ''i''" a] by (auto simp: is_digit_def)

lemma i_notin_members: "CHR ''i'' \<notin> set (members k)"
  using char_in_members [of "CHR ''i''" k] by (auto simp: is_digit_def)

lemma skip_str_int: "count_occ (CHR ''i'' # q) (str_int a @ t) = count_occ (CHR ''i'' # q) t"
  by (rule count_occ_skip) (simp_all add: i_notin_str_int)

lemma skip_members: "count_occ (CHR ''i'' # q) (members a @ t) = count_occ (CHR ''i'' # q) t"
  by (rule count_occ_skip) (simp_all add: i_notin_members)


lemma gt_count_eq:
  "count_occ ''if constexpr (arity == '' (generate_tuple k @ t) = 1 + count_occ ''if constexpr (arity == '' t"
  by (simp add: generate_tuple_def case_body_def skip_str_int skip_members)

lemma gt_count_ge:
  "count_occ ''if constexpr (arity >= '' (generate_tuple k @ t) = count_occ ''if constexpr (arity >= '' t"
  by (simp add: generate_tuple_def case_body_def skip_str_int skip_members)

lemma join_Cons_append:
  "join sep (x # xs) @ t = x @ (if xs = [] then t else sep @ join sep xs @ t)"
  by (cases xs) simp_all


lemma join_count_eq:
  "count_occ ''if constexpr (arity == '' (join '' else '' (map generate_tuple ks) @ t)
     = length ks + count_occ ''if constexpr (arity == '' t"
proof (induction ks)
  case Nil
  show ?case by simp
next
  case (Cons k ks)
  show ?case
    unfolding list.map join_Cons_append gt_count_eq
    using Cons by (cases "ks = []") simp_all
qed

lemma join_count_ge:
  "count_occ ''if constexpr (arity >= '' (join '' else '' (map generate_tuple ks) @ t)
     = count_occ ''if constexpr (arity >= '' t"
proof (induction ks)
  case Nil
  show ?case by simp
next
  case (Cons k ks)
  show ?case
    unfolding list.map join_Cons_append gt_count_ge
    using Cons by (cases "ks = []") simp_all
qed


lemma overflow_count_eq:
  "count_occ ''if constexpr (arity == '' (overflow_branch n @ trailer) = 0"
  by (simp add: overflow_branch_def trailer_def skip_str_int)

lemma overflow_count_ge:
  "count_occ ''if constexpr (arity >= '' (overflow_branch n @ trailer) = 1"
  by (simp add: overflow_branch_def trailer_def skip_str_int)


lemma header_count_eq:
  "count_occ ''if constexpr (arity == '' (header @ t) = count_occ ''if constexpr (arity == '' t"
  by (simp add: header_def)

lemma header_count_ge:
  "count_occ ''if constexpr (arity >= '' (header @ t) = count_occ ''if constexpr (arity >= '' t"
  by (simp add: header_def)

lemma length_py_range: "length (py_range 0 n) = nat n"
  by (simp add: py_range_def)


lemma text_count_eq:
  "count_occ ''if constexpr (arity == '' (header @ cases n @ overflow_branch n @ trailer) = nat n"
  by (simp only: header_count_eq cases_def case_branches_def join_count_eq overflow_count_eq length_py_range add_0_right)

lemma text_count_ge:
  "count_occ ''if constexpr (arity >= '' (header @ cases n @ overflow_branch n @ trailer) = 1"
  by (simp only: header_count_ge cases_def case_branches_def join_count_ge overflow_count_ge)

lemma str_int_2: "str_int 2 = ''2''" and str_int_0: "str_int 0 = ''0''"
  by (simp_all add: str_int_def str_nat.simps digit_char_def)

lemma skip_str_int': "c \<noteq> CHR ''-'' \<Longrightarrow> \<not> is_digit c \<Longrightarrow> count_occ (c # q) (str_int a @ t) = count_occ (c # q) t"
  using char_in_str_int [of c a] by (intro count_occ_skip) auto

lemma skip_members':
  "c \<noteq> CHR '','' \<Longrightarrow> c \<noteq> CHR '' '' \<Longrightarrow> c \<noteq> CHR ''p'' \<Longrightarrow> c \<noteq> CHR ''-'' \<Longrightarrow> \<not> is_digit c \<Longrightarrow>
   count_occ (c # q) (members k @ t) = count_occ (c # q) t"
  using char_in_members [of c k] by (intro count_occ_skip) auto

lemma gt_count_facility:
  "count_occ ''aggregate_arity'' (generate_tuple k @ t) = count_occ ''aggregate_arity'' t"
  by (simp add: generate_tuple_def case_body_def skip_str_int' skip_members' is_digit_def)

lemma join_count_facility:
  "count_occ ''aggregate_arity'' (join '' else '' (map generate_tuple ks) @ t)
     = count_occ ''aggregate_arity'' t"
proof (induction ks)
  case Nil
  show ?case by simp
next
  case (Cons k ks)
  show ?case
    unfolding list.map join_Cons_append gt_count_facility
    using Cons by (cases "ks = []") simp_all
qed

lemma overflow_count_facility:
  "count_occ ''aggregate_arity'' (overflow_branch n @ trailer) = 0"
  by (simp add: overflow_branch_def trailer_def skip_str_int' is_digit_def)

lemma header_count_facility:
  "count_occ ''aggregate_arity'' (header @ t) = 2 + count_occ ''aggregate_arity'' t"
  by (simp add: header_def)

lemma text_count_facility:
  "count_occ ''aggregate_arity'' (header @ cases n @ overflow_branch n @ trailer) = 2"
  by (simp only: header_count_facility cases_def case_branches_def join_count_facility overflow_count_facility add_0_right)

lemma count_occ_sublist: "sublist p t \<Longrightarrow> p \<noteq> [] \<Longrightarrow> 0 < count_occ p t"
proof (induction t)
  case Nil
  then show ?case by simp
next
  case (Cons x t)
  then show ?case by (auto simp: sublist_Cons_right)
qed

lemma gt_no_facility: "\<not> sublist ''aggregate_arity'' (generate_tuple k)"
  using count_occ_sublist [of "''aggregate_arity''" "generate_tuple k"] gt_count_facility [of k "[]"]
  by auto

lemma placeholders_upto: "placeholders k = map (\<lambda>i. ''p'' @ str_int i) [1..k]"
  by (simp add: placeholders_def py_range_def)

lemma placeholders_distinct: "distinct (placeholders k)"
proof -
  have "inj_on (\<lambda>i. ''p'' @ str_int i) (set [1..k])"
    by (rule inj_onI) (simp add: str_int_inj)
  then show ?thesis unfolding placeholders_upto by (simp only: distinct_map distinct_upto simp_thms)
qed

lemma placeholders_length: "length (placeholders k) = nat k"
  by (simp add: placeholders_upto)

lemma placeholders_nth: "1 \<le> i \<Longrightarrow> i \<le> k \<Longrightarrow> placeholders k ! nat (i - 1) = ''p'' @ str_int i"
  by (simp add: placeholders_upto)

lemma generate_tuple_pos:
  "k \<noteq> 0 \<Longrightarrow> generate_tuple k =
     ''if constexpr (arity == '' @ str_int k @ ''){\<newline>auto& ['' @ join '', '' (placeholders k)
     @ ''] = t;\<newline>return std::tie('' @ join '', '' (placeholders k) @ '');\<newline>\<newline>}\<newline>''"
  by (simp add: generate_tuple_def case_body_def members_def)

lemma generate_tuple_0:
  "generate_tuple 0 = ''if constexpr (arity == 0){\<newline>return std::tie();\<newline>}\<newline>''"
  by (simp add: generate_tuple_def case_body_def str_int_0)

lemma case_branches_upto: "case_branches (n + 1) = map generate_tuple [0..n]"
  by (simp add: case_branches_def py_range_def)

lemma case_branches_strict_prefix:
  assumes "0 \<le> n" "n < m"
  shows "strict_prefix (case_branches (n + 1)) (case_branches (m + 1))"
proof -
  have "case_branches (m + 1) = case_branches (n + 1) @ map generate_tuple [n + 1..m]"
    using assms case_branches_append [of "n + 1" "m + 1"] by simp
  moreover have "map generate_tuple [n + 1..m] \<noteq> []" using assms by simp
  ultimately show ?thesis by (simp add: strict_prefix_def)
qed

section \<open>The claims\<close>

text \<open>
  Claim C6. For every bound \<open>N \<ge> 0\<close> the branch emitted for \<open>k = 0\<close> is the first
  per-arity branch of the file; it returns the empty view \<^verbatim>\<open>std::tie()\<close> and its text is
  one fixed string, the same for every \<open>N\<close>.
\<close>

theorem zero_branch_empty_view:
  "0 \<le> N \<Longrightarrow>
     case_branches (N + 1) ! 0 = ''if constexpr (arity == 0){\<newline>return std::tie();\<newline>}\<newline>''
     \<and> generate_tuple 0 = ''if constexpr (arity == 0){\<newline>return std::tie();\<newline>}\<newline>''
     \<and> prefix (header @ ''if constexpr (arity == 0){\<newline>return std::tie();\<newline>}\<newline>'')
               (header @ cases (N + 1) @ overflow_branch (N + 1) @ trailer)"
proof -
  assume n: "0 \<le> N"
  have b: "case_branches (N + 1) ! 0 = generate_tuple 0"
    using case_branches_nth [of 0 N] n by simp
  obtain bs where bs: "case_branches (N + 1) = generate_tuple 0 # bs"
    using n by (simp add: case_branches_upto upto_rec1 [of 0 N])
  have "cases (N + 1) @ overflow_branch (N + 1) @ trailer
          = generate_tuple 0 @ (if bs = [] then overflow_branch (N + 1) @ trailer
                                else '' else '' @ join '' else '' bs @ overflow_branch (N + 1) @ trailer)"
    unfolding cases_def bs by (rule join_Cons_append)
  then have "prefix (header @ generate_tuple 0) (header @ cases (N + 1) @ overflow_branch (N + 1) @ trailer)"
    by (simp only: same_prefix_prefix prefixI)
  then show ?thesis using b by (simp only: generate_tuple_0 simp_thms)
qed

theorem zero_branch_empty_view_witness:
  "case_branches (2 + 1) ! 0 = ''if constexpr (arity == 0){\<newline>return std::tie();\<newline>}\<newline>''"
  using zero_branch_empty_view [of 2] by simp

text \<open>
  Claim C5. For every \<open>k\<close> with \<open>1 \<le> k \<le> N\<close> the branch emitted for \<open>k\<close> binds the
  \<open>k\<close> distinct names \<open>p1, \<dots>, pk\<close> in this order in its structured binding and returns
  \<^verbatim>\<open>std::tie\<close> of the same names in the same order.
\<close>

theorem case_branch_positional:
  "1 \<le> k \<Longrightarrow> k \<le> N \<Longrightarrow>
     case_branches (N + 1) ! nat k =
       ''if constexpr (arity == '' @ str_int k @ ''){\<newline>auto& ['' @ join '', '' (placeholders k)
       @ ''] = t;\<newline>return std::tie('' @ join '', '' (placeholders k) @ '');\<newline>\<newline>}\<newline>''
     \<and> placeholders k = map (\<lambda>i. ''p'' @ str_int i) [1..k]
     \<and> length (placeholders k) = nat k
     \<and> distinct (placeholders k)"
proof -
  assume k: "1 \<le> k" "k \<le> N"
  have "case_branches (N + 1) ! nat k = generate_tuple k"
    using k by (intro case_branches_nth) auto
  moreover have "k \<noteq> 0" using k by simp
  ultimately show ?thesis
    by (simp only: generate_tuple_pos placeholders_upto [symmetric] placeholders_length placeholders_distinct simp_thms)
qed

theorem case_branch_positional_witness:
  "case_branches (3 + 1) ! nat 2 =
       ''if constexpr (arity == 2){\<newline>auto& [p1, p2] = t;\<newline>return std::tie(p1, p2);\<newline>\<newline>}\<newline>''
   \<and> placeholders 2 = [''p1'', ''p2'']"
proof -
  have p: "placeholders 2 = [''p1'', ''p2'']" by code_simp
  have "(1::int) \<le> 2" "(2::int) \<le> 3" by simp_all
  from case_branch_positional [OF this] show ?thesis
    by (simp add: p str_int_2)
qed

lemma overflow_branch_shape:
  "overflow_branch n = ''else if constexpr (arity >= '' @ str_int n
     @ '') { static_assert(false,'' @ [CHR 0x22]
     @ ''Generate new to_tie function, the script is located in utils/configuration_store''
     @ [CHR 0x22] @ '');\<newline> }''"
  by (rule overflow_branch_def)



lemma str_int_3: "str_int 3 = ''3''" and str_int_1: "str_int 1 = ''1''"
  by (simp_all add: str_int_def str_nat.simps digit_char_def)

lemma parse_args_2: "parse_args version [''2''] = Namespace 2"
  using parse_args_str_int [of version 2]
  by (simp add: str_int_2 str_nat.simps int_max_str_digits_def)


lemma parse_args_0: "parse_args version [''0''] = Namespace 0"
  using parse_args_str_int [of version 0]
  by (simp add: str_int_0 str_nat.simps int_max_str_digits_def)


lemma cases_3:
  "cases 3 =
     ''if constexpr (arity == 0){\<newline>return std::tie();\<newline>}\<newline>''
     @ '' else if constexpr (arity == 1){\<newline>auto& [p1] = t;\<newline>return std::tie(p1);\<newline>\<newline>}\<newline>''
     @ '' else if constexpr (arity == 2){\<newline>auto& [p1, p2] = t;\<newline>return std::tie(p1, p2);\<newline>\<newline>}\<newline>''"
  by code_simp

lemma cases_1: "cases 1 = ''if constexpr (arity == 0){\<newline>return std::tie();\<newline>}\<newline>''"
  by code_simp

lemma main_2:
  "main version [''2''] fs = \<lparr>status = 0, message = Nothing,
     files = fs(''to_tie.hpp'' \<mapsto> header @ cases 3 @ overflow_branch 3 @ trailer)\<rparr>"
  using main_Namespace [OF parse_args_2, of version fs] by simp

lemma main_0:
  "main version [''0''] fs = \<lparr>status = 0, message = Nothing,
     files = fs(''to_tie.hpp'' \<mapsto> header @ cases 1 @ overflow_branch 1 @ trailer)\<rparr>"
  using main_Namespace [OF parse_args_0, of version fs] by simp

text \<open>
  Claim C1, as stated, fails: with the argument \<open>2\<close> the file has three guards
  \<^verbatim>\<open>if constexpr (arity ==\<close>, not four, no branch for \<open>k = 3\<close> and no guard \<^verbatim>\<open>arity >= 4\<close>.
\<close>

theorem main_argument_2_counterexample:
  "files (main argparse_older [''2''] Map.empty) ''to_tie.hpp''
     = Some (header @ cases 3 @ overflow_branch 3 @ trailer)
   \<and> count_occ ''if constexpr (arity == '' (header @ cases 3 @ overflow_branch 3 @ trailer) \<noteq> 4
   \<and> \<not> sublist (generate_tuple 3) (header @ cases 3 @ overflow_branch 3 @ trailer)
   \<and> \<not> sublist ''arity >= 4'' (header @ cases 3 @ overflow_branch 3 @ trailer)"
proof -
  have a: "files (main argparse_older [''2''] Map.empty) ''to_tie.hpp''
     = Some (header @ cases 3 @ overflow_branch 3 @ trailer)"
    by (simp add: main_2)
  have b: "count_occ ''if constexpr (arity == '' (header @ cases 3 @ overflow_branch 3 @ trailer) \<noteq> 4"
    by (simp add: text_count_eq)
  have c: "\<not> sublist (generate_tuple 3) (header @ cases 3 @ overflow_branch 3 @ trailer)"
    by code_simp
  have d: "\<not> sublist ''arity >= 4'' (header @ cases 3 @ overflow_branch 3 @ trailer)"
    by code_simp
  from a b c d show ?thesis by (simp only: simp_thms)
qed

text \<open>
  Claim C1, amended. With the argument \<open>2\<close> the program exits with status 0 and the file
  holds exactly three per-arity branches, for \<open>k = 0, 1, 2\<close>, and one overflow branch
  whose guard is \<^verbatim>\<open>arity >= 3\<close>; the whole text is the one given.
\<close>

theorem main_argument_2:
  "main version [''2''] fs =
     \<lparr>status = 0, message = Nothing,
      files = fs(''to_tie.hpp'' \<mapsto>
        header
        @ ''if constexpr (arity == 0){\<newline>return std::tie();\<newline>}\<newline>''
        @ '' else if constexpr (arity == 1){\<newline>auto& [p1] = t;\<newline>return std::tie(p1);\<newline>\<newline>}\<newline>''
        @ '' else if constexpr (arity == 2){\<newline>auto& [p1, p2] = t;\<newline>return std::tie(p1, p2);\<newline>\<newline>}\<newline>''
        @ ''else if constexpr (arity >= 3) { static_assert(false,'' @ [CHR 0x22]
        @ ''Generate new to_tie function, the script is located in utils/configuration_store''
        @ [CHR 0x22] @ '');\<newline> }''
        @ ''};}'')\<rparr>
   \<and> case_branches (2 + 1) = [generate_tuple 0, generate_tuple 1, generate_tuple 2]
   \<and> count_occ ''if constexpr (arity == '' (header @ cases (2 + 1) @ overflow_branch (2 + 1) @ trailer) = 3
   \<and> count_occ ''if constexpr (arity >= '' (header @ cases (2 + 1) @ overflow_branch (2 + 1) @ trailer) = 1
   \<and> sublist ''if constexpr (arity >= 3)'' (overflow_branch (2 + 1))"
proof -
  have a: "main version [''2''] fs =
     \<lparr>status = 0, message = Nothing,
      files = fs(''to_tie.hpp'' \<mapsto>
        header
        @ ''if constexpr (arity == 0){\<newline>return std::tie();\<newline>}\<newline>''
        @ '' else if constexpr (arity == 1){\<newline>auto& [p1] = t;\<newline>return std::tie(p1);\<newline>\<newline>}\<newline>''
        @ '' else if constexpr (arity == 2){\<newline>auto& [p1, p2] = t;\<newline>return std::tie(p1, p2);\<newline>\<newline>}\<newline>''
        @ ''else if constexpr (arity >= 3) { static_assert(false,'' @ [CHR 0x22]
        @ ''Generate new to_tie function, the script is located in utils/configuration_store''
        @ [CHR 0x22] @ '');\<newline> }''
        @ ''};}'')\<rparr>"
    by (simp add: main_2 cases_3 overflow_branch_def str_int_3 trailer_def)
  have b: "case_branches (2 + 1) = [generate_tuple 0, generate_tuple 1, generate_tuple 2]"
    by (simp add: case_branches_def py_range_def upto_rec1)
  have c: "count_occ ''if constexpr (arity == '' (header @ cases (2 + 1) @ overflow_branch (2 + 1) @ trailer) = 3"
    by (simp add: text_count_eq)
  have d: "count_occ ''if constexpr (arity >= '' (header @ cases (2 + 1) @ overflow_branch (2 + 1) @ trailer) = 1"
    by (simp only: text_count_ge)
  have e: "sublist ''if constexpr (arity >= 3)'' (overflow_branch (2 + 1))"
    by code_simp
  from a b c d e show ?thesis by (simp only: simp_thms)
qed

theorem main_argument_2_witness:
  "files (main argparse_older [''2''] Map.empty) ''to_tie.hpp'' \<noteq> None
   \<and> length (case_branches (2 + 1)) = 3"
  using main_argument_2 [of argparse_older Map.empty] by simp

text \<open>
  Claim C2, as stated, fails: with the argument \<open>0\<close> the file has one guard
  \<^verbatim>\<open>if constexpr (arity ==\<close>, not two, no branch for \<open>k = 1\<close> and no guard \<^verbatim>\<open>arity >= 2\<close>.
\<close>

theorem main_argument_0_counterexample:
  "files (main argparse_older [''0''] Map.empty) ''to_tie.hpp''
     = Some (header @ cases 1 @ overflow_branch 1 @ trailer)
   \<and> count_occ ''if constexpr (arity == '' (header @ cases 1 @ overflow_branch 1 @ trailer) \<noteq> 2
   \<and> \<not> sublist (generate_tuple 1) (header @ cases 1 @ overflow_branch 1 @ trailer)
   \<and> \<not> sublist ''arity >= 2'' (header @ cases 1 @ overflow_branch 1 @ trailer)"
proof -
  have a: "files (main argparse_older [''0''] Map.empty) ''to_tie.hpp''
     = Some (header @ cases 1 @ overflow_branch 1 @ trailer)"
    by (simp add: main_0)
  have b: "count_occ ''if constexpr (arity == '' (header @ cases 1 @ overflow_branch 1 @ trailer) \<noteq> 2"
    by (simp add: text_count_eq)
  have c: "\<not> sublist (generate_tuple 1) (header @ cases 1 @ overflow_branch 1 @ trailer)"
    by code_simp
  have d: "\<not> sublist ''arity >= 2'' (header @ cases 1 @ overflow_branch 1 @ trailer)"
    by code_simp
  from a b c d show ?thesis by (simp only: simp_thms)
qed

text \<open>
  Claim C2, amended. With the argument \<open>0\<close> the program exits with status 0 and the file
  holds exactly one per-arity branch, for \<open>k = 0\<close>, and one overflow branch whose guard
  is \<^verbatim>\<open>arity >= 1\<close>; the whole text is the one given.
\<close>

theorem main_argument_0:
  "main version [''0''] fs =
     \<lparr>status = 0, message = Nothing,
      files = fs(''to_tie.hpp'' \<mapsto>
        header
        @ ''if constexpr (arity == 0){\<newline>return std::tie();\<newline>}\<newline>''
        @ ''else if constexpr (arity >= 1) { static_assert(false,'' @ [CHR 0x22]
        @ ''Generate new to_tie function, the script is located in utils/configuration_store''
        @ [CHR 0x22] @ '');\<newline> }''
        @ ''};}'')\<rparr>
   \<and> case_branches (0 + 1) = [generate_tuple 0]
   \<and> count_occ ''if constexpr (arity == '' (header @ cases (0 + 1) @ overflow_branch (0 + 1) @ trailer) = 1
   \<and> count_occ ''if constexpr (arity >= '' (header @ cases (0 + 1) @ overflow_branch (0 + 1) @ trailer) = 1
   \<and> sublist ''if constexpr (arity >= 1)'' (overflow_branch (0 + 1))"
proof -
  have a: "main version [''0''] fs =
     \<lparr>status = 0, message = Nothing,
      files = fs(''to_tie.hpp'' \<mapsto>
        header
        @ ''if constexpr (arity == 0){\<newline>return std::tie();\<newline>}\<newline>''
        @ ''else if constexpr (arity >= 1) { static_assert(false,'' @ [CHR 0x22]
        @ ''Generate new to_tie function, the script is located in utils/configuration_store''
        @ [CHR 0x22] @ '');\<newline> }''
        @ ''};}'')\<rparr>"
    by (simp add: main_0 cases_1 overflow_branch_def str_int_1 trailer_def)
  have b: "case_branches (0 + 1) = [generate_tuple 0]"
    by (simp add: case_branches_def py_range_def upto_rec1)
  have c: "count_occ ''if constexpr (arity == '' (header @ cases (0 + 1) @ overflow_branch (0 + 1) @ trailer) = 1"
    by (simp add: text_count_eq)
  have d: "count_occ ''if constexpr (arity >= '' (header @ cases (0 + 1) @ overflow_branch (0 + 1) @ trailer) = 1"
    by (simp only: text_count_ge)
  have e: "sublist ''if constexpr (arity >= 1)'' (overflow_branch (0 + 1))"
    by code_simp
  from a b c d e show ?thesis by (simp only: simp_thms)
qed

theorem main_argument_0_witness:
  "files (main argparse_older [''0''] Map.empty) ''to_tie.hpp'' \<noteq> None
   \<and> length (case_branches (0 + 1)) = 1"
  using main_argument_0 [of argparse_older Map.empty] by simp

lemma generate_tuple_guard:
  "prefix (''if constexpr (arity == '' @ str_int k @ ''){'') (generate_tuple k)"
  by (simp add: generate_tuple_def)

lemma header_facility:
  "sublist ''std::size_t arity = aggregate_arity<std::remove_cv_t<T>>::size() - 1'' header"
  by code_simp

lemma header_facility_count: "count_occ ''aggregate_arity'' header = 2"
  using header_count_facility [of "[]"] by simp

text \<open>
  Claim C4, as stated, fails: the guard of the branch for \<open>k = 1\<close> is
  \<^verbatim>\<open>if constexpr (arity == 1)\<close> and the branch does not mention the arity-detection facility
  \<^verbatim>\<open>aggregate_arity\<close> at all.
\<close>

theorem guard_counterexample:
  "generate_tuple 1 = ''if constexpr (arity == 1){\<newline>auto& [p1] = t;\<newline>return std::tie(p1);\<newline>\<newline>}\<newline>''
   \<and> \<not> sublist ''aggregate_arity'' (generate_tuple 1)"
proof -
  have "generate_tuple 1 = ''if constexpr (arity == 1){\<newline>auto& [p1] = t;\<newline>return std::tie(p1);\<newline>\<newline>}\<newline>''"
    by code_simp
  then show ?thesis using gt_no_facility [of 1] by (simp only: simp_thms)
qed

text \<open>
  Claim C4, amended. The guard of every per-arity branch is written
  \<^verbatim>\<open>if constexpr (arity == k)\<close>: it compares the template parameter \<^verbatim>\<open>arity\<close> with \<open>k\<close> and
  does not call the arity-detection facility. The facility is named only in the header
  (the include line and the default value of the parameter,
  \<^verbatim>\<open>aggregate_arity<std::remove_cv_t<T>>::size() - 1\<close>): twice in the header and twice in
  the whole file, for every bound.
\<close>

theorem guard_compares_arity_parameter:
  "prefix (''if constexpr (arity == '' @ str_int k @ ''){'') (generate_tuple k)
   \<and> \<not> sublist ''aggregate_arity'' (generate_tuple k)
   \<and> count_occ ''aggregate_arity'' (header @ cases n @ overflow_branch n @ trailer) = 2
   \<and> count_occ ''aggregate_arity'' header = 2
   \<and> sublist ''std::size_t arity = aggregate_arity<std::remove_cv_t<T>>::size() - 1'' header"
  using generate_tuple_guard [of k] gt_no_facility [of k] text_count_facility [of n]
    header_facility_count header_facility
  by (simp only: simp_thms)

theorem guard_compares_arity_parameter_witness:
  "prefix ''if constexpr (arity == 2){'' (generate_tuple 2)
   \<and> count_occ ''aggregate_arity'' (header @ cases 3 @ overflow_branch 3 @ trailer) = 2"
  using guard_compares_arity_parameter [of 2 3] by (simp add: str_int_2)

lemma str_nat_pow10: "str_nat (10 ^ n) = CHR ''1'' # replicate n (CHR ''0'')"
proof (induction n)
  case 0
  show ?case by (simp add: str_nat.simps digit_char_def)
next
  case (Suc n)
  have "\<not> (10::nat) ^ Suc n < 10" by simp
  then have "str_nat (10 ^ Suc n) = str_nat (10 ^ Suc n div 10) @ [digit_char (10 ^ Suc n mod 10)]"
    by (simp only: str_nat.simps [of "10 ^ Suc n"] if_False)
  also have "\<dots> = str_nat (10 ^ n) @ [CHR ''0'']" by (simp add: digit_char_def)
  also have "\<dots> = CHR ''1'' # replicate (Suc n) (CHR ''0'')"
    by (simp only: Suc replicate_Suc append_Cons replicate_append_same)
  finally show ?case .
qed

lemma str_int_neg_pow10:
  "str_int (- (10 ^ n)) = CHR ''-'' # CHR ''1'' # replicate n (CHR ''0'')"
proof -
  have "nat ((10::int) ^ n) = 10 ^ n" by (simp add: nat_power_eq)
  then have "str_nat (nat ((10::int) ^ n)) = CHR ''1'' # replicate n (CHR ''0'')"
    by (simp only: str_nat_pow10)
  then show ?thesis by (simp add: str_int_def)
qed

text \<open>
  Claim C10, as stated, fails: the negative argument made of \<^verbatim>\<open>-1\<close> and 4300 zeros,
  that is \<open>- (10 ^ 4300)\<close>, is refused by the integer conversion (more than 4300
  digits): the process exits with status 2 and writes nothing.
\<close>

theorem long_negative_argument_counterexample:
  "- (10 ^ int_max_str_digits) \<le> (- 1 :: int)
   \<and> int_max_str_digits = 4300
   \<and> str_int (- (10 ^ int_max_str_digits))
        = CHR ''-'' # CHR ''1'' # replicate int_max_str_digits (CHR ''0'')
   \<and> main argparse_older [str_int (- (10 ^ int_max_str_digits))] Map.empty
        = \<lparr>status = 2, message = Usage_diagnostic, files = Map.empty\<rparr>"
proof -
  have "(1::int) \<le> 10 ^ int_max_str_digits" by simp
  then have a: "- (10 ^ int_max_str_digits) \<le> (- 1 :: int)" by simp
  have "(10::int) ^ int_max_str_digits \<le> \<bar>- (10 ^ int_max_str_digits)\<bar>" by simp
  then have b: "main argparse_older [str_int (- (10 ^ int_max_str_digits))] Map.empty
        = \<lparr>status = 2, message = Usage_diagnostic, files = Map.empty\<rparr>"
    by (rule main_str_int_refused)
  from a b show ?thesis by (simp only: str_int_neg_pow10 int_max_str_digits_def simp_thms)
qed

text \<open>
  Claim C10, amended. A negative argument \<open>a \<le> -1\<close> of at most 4300 digits, that is
  \<open>- (10 ^ 4300) < a\<close>, written in decimal on the command line, is accepted: the program
  exits with status 0 and writes the header, no per-arity branch, the overflow branch
  with the threshold \<open>a + 1 \<le> 0\<close>, and the closing text; so does every command line
  that parses to \<open>a\<close>. A longer negative argument is refused by the integer conversion
  with status 2, like any word that is not an integer; the sign is never checked.
\<close>

theorem negative_argument_accepted:
  "a \<le> - 1 \<Longrightarrow>
     (- (10 ^ int_max_str_digits) < a \<longrightarrow>
        main version [str_int a] fs =
          \<lparr>status = 0, message = Nothing,
           files = fs(''to_tie.hpp'' \<mapsto> header @ overflow_branch (a + 1) @ trailer)\<rparr>)
     \<and> (a \<le> - (10 ^ int_max_str_digits) \<longrightarrow>
        main version [str_int a] fs = \<lparr>status = 2, message = Usage_diagnostic, files = fs\<rparr>)
     \<and> (\<forall>argv. parse_args version argv = Namespace a \<longrightarrow>
        main version argv fs =
          \<lparr>status = 0, message = Nothing,
           files = fs(''to_tie.hpp'' \<mapsto> header @ overflow_branch (a + 1) @ trailer)\<rparr>)
     \<and> hd (str_int a) = CHR ''-''
     \<and> case_branches (a + 1) = []
     \<and> a + 1 \<le> 0
     \<and> overflow_branch (a + 1) = ''else if constexpr (arity >= '' @ str_int (a + 1)
          @ '') { static_assert(false,'' @ [CHR 0x22]
          @ ''Generate new to_tie function, the script is located in utils/configuration_store''
          @ [CHR 0x22] @ '');\<newline> }''
     \<and> count_occ ''if constexpr (arity == '' (header @ overflow_branch (a + 1) @ trailer) = 0"
proof -
  assume a: "a \<le> - 1"
  have e: "case_branches (a + 1) = []" using a by (intro case_branches_neg) simp
  then have c: "cases (a + 1) = []" by (simp add: cases_def)
  have abs: "\<bar>a\<bar> = - a" using a by simp
  have m: "- (10 ^ int_max_str_digits) < a \<longrightarrow>
        main version [str_int a] fs =
          \<lparr>status = 0, message = Nothing,
           files = fs(''to_tie.hpp'' \<mapsto> header @ overflow_branch (a + 1) @ trailer)\<rparr>"
  proof
    assume "- (10 ^ int_max_str_digits) < a"
    then have "\<bar>a\<bar> < 10 ^ int_max_str_digits" using abs by simp
    from main_str_int [OF this, of version fs] show "main version [str_int a] fs =
          \<lparr>status = 0, message = Nothing,
           files = fs(''to_tie.hpp'' \<mapsto> header @ overflow_branch (a + 1) @ trailer)\<rparr>"
      by (simp only: c append_Nil)
  qed
  have r: "a \<le> - (10 ^ int_max_str_digits) \<longrightarrow>
        main version [str_int a] fs = \<lparr>status = 2, message = Usage_diagnostic, files = fs\<rparr>"
  proof
    assume "a \<le> - (10 ^ int_max_str_digits)"
    then have "10 ^ int_max_str_digits \<le> \<bar>a\<bar>" using abs by simp
    then show "main version [str_int a] fs = \<lparr>status = 2, message = Usage_diagnostic, files = fs\<rparr>"
      by (rule main_str_int_refused)
  qed
  have g: "\<forall>argv. parse_args version argv = Namespace a \<longrightarrow>
        main version argv fs =
          \<lparr>status = 0, message = Nothing,
           files = fs(''to_tie.hpp'' \<mapsto> header @ overflow_branch (a + 1) @ trailer)\<rparr>"
    using main_Namespace [of version _ a fs] by (simp only: c append_Nil) blast
  have h: "hd (str_int a) = CHR ''-''" using a by (simp add: str_int_def)
  have n: "count_occ ''if constexpr (arity == '' (header @ overflow_branch (a + 1) @ trailer) = 0"
    using text_count_eq [of "a + 1"] a by (simp add: c)
  have le: "a + 1 \<le> 0" using a by simp
  from m r g h e le n show ?thesis by (simp only: overflow_branch_def simp_thms)
qed

theorem negative_argument_accepted_witness:
  "main argparse_older [''-3''] Map.empty =
     \<lparr>status = 0, message = Nothing,
      files = [''to_tie.hpp'' \<mapsto> header @ overflow_branch (- 2) @ trailer]\<rparr>
   \<and> sublist ''if constexpr (arity >= -2)'' (overflow_branch (- 2))"
proof -
  have s: "str_int (- 3) = ''-3''" by (simp add: str_int_def str_nat.simps digit_char_def)
  have t: "sublist ''if constexpr (arity >= -2)'' (overflow_branch (- 2))" by code_simp
  have "(1::int) \<le> 10 ^ int_max_str_digits" by simp
  then have "(3::int) < 10 ^ int_max_str_digits \<or> (10::int) ^ int_max_str_digits \<le> 3" by linarith
  moreover have "\<not> (10::int) ^ int_max_str_digits \<le> 3"
  proof
    assume "(10::int) ^ int_max_str_digits \<le> 3"
    moreover have "(10::int) ^ 1 \<le> 10 ^ int_max_str_digits"
      by (rule power_increasing) (simp_all add: int_max_str_digits_def)
    ultimately show False by simp
  qed
  ultimately have lim: "- (10 ^ int_max_str_digits) < (- 3 :: int)" by simp
  have "(- 3::int) \<le> - 1" by simp
  from negative_argument_accepted [OF this, of version fs for version fs]
  have "- (10 ^ int_max_str_digits) < (- 3 :: int) \<longrightarrow>
     main argparse_older [str_int (- 3)] Map.empty =
     \<lparr>status = 0, message = Nothing,
      files = [''to_tie.hpp'' \<mapsto> header @ overflow_branch (- 3 + 1) @ trailer]\<rparr>"
    by (rule conjunct1)
  with lim have "main argparse_older [str_int (- 3)] Map.empty =
     \<lparr>status = 0, message = Nothing,
      files = [''to_tie.hpp'' \<mapsto> header @ overflow_branch (- 3 + 1) @ trailer]\<rparr>"
    by (rule rev_mp)
  then show ?thesis using t by (simp add: s)
qed

text \<open>
  Claim C9. For bounds \<open>0 \<le> N < N'\<close> the list of per-arity branches written for \<open>N\<close>
  is a strict prefix of the list written for \<open>N'\<close>, branch \<open>k\<close> being the same text
  \<open>generate_tuple k\<close> in both files; the two overflow branches are the same text around
  the thresholds \<open>N + 1\<close> and \<open>N' + 1\<close>, whose decimal forms differ. The two files are
  those of any command lines that parse to \<open>N\<close> and to \<open>N'\<close>, in particular of the
  decimal forms of \<open>N\<close> and \<open>N'\<close> when \<open>N'\<close> has at most 4300 digits.
\<close>

theorem monotonic_extension:
  "0 \<le> N \<Longrightarrow> N < N' \<Longrightarrow>
     strict_prefix (case_branches (N + 1)) (case_branches (N' + 1))
     \<and> case_branches (N + 1) = map generate_tuple [0..N]
     \<and> case_branches (N' + 1) = map generate_tuple [0..N']
     \<and> (\<forall>k. 0 \<le> k \<and> k \<le> N \<longrightarrow>
           case_branches (N + 1) ! nat k = generate_tuple k \<and> case_branches (N' + 1) ! nat k = generate_tuple k)
     \<and> (\<forall>argv. parse_args version argv = Namespace N \<longrightarrow>
           files (main version argv fs) ''to_tie.hpp''
             = Some (header @ join '' else '' (case_branches (N + 1)) @ overflow_branch (N + 1) @ trailer))
     \<and> (\<forall>argv. parse_args version argv = Namespace N' \<longrightarrow>
           files (main version argv fs) ''to_tie.hpp''
             = Some (header @ join '' else '' (case_branches (N' + 1)) @ overflow_branch (N' + 1) @ trailer))
     \<and> (N' < 10 ^ int_max_str_digits \<longrightarrow>
           files (main version [str_int N] fs) ''to_tie.hpp''
             = Some (header @ join '' else '' (case_branches (N + 1)) @ overflow_branch (N + 1) @ trailer)
           \<and> files (main version [str_int N'] fs) ''to_tie.hpp''
             = Some (header @ join '' else '' (case_branches (N' + 1)) @ overflow_branch (N' + 1) @ trailer))
     \<and> overflow_branch (N + 1) = ''else if constexpr (arity >= '' @ str_int (N + 1)
          @ '') { static_assert(false,'' @ [CHR 0x22]
          @ ''Generate new to_tie function, the script is located in utils/configuration_store''
          @ [CHR 0x22] @ '');\<newline> }''
     \<and> overflow_branch (N' + 1) = ''else if constexpr (arity >= '' @ str_int (N' + 1)
          @ '') { static_assert(false,'' @ [CHR 0x22]
          @ ''Generate new to_tie function, the script is located in utils/configuration_store''
          @ [CHR 0x22] @ '');\<newline> }''
     \<and> str_int (N + 1) \<noteq> str_int (N' + 1)"
proof -
  assume n: "0 \<le> N" "N < N'"
  have p: "strict_prefix (case_branches (N + 1)) (case_branches (N' + 1))"
    using n by (rule case_branches_strict_prefix)
  have k: "\<forall>k. 0 \<le> k \<and> k \<le> N \<longrightarrow>
           case_branches (N + 1) ! nat k = generate_tuple k \<and> case_branches (N' + 1) ! nat k = generate_tuple k"
    using n by (simp add: case_branches_nth)
  have g: "\<forall>argv. parse_args version argv = Namespace M \<longrightarrow>
           files (main version argv fs) ''to_tie.hpp''
             = Some (header @ join '' else '' (case_branches (M + 1)) @ overflow_branch (M + 1) @ trailer)" for M
    by (simp add: main_Namespace cases_def)
  have f: "files (main version [str_int M] fs) ''to_tie.hpp''
         = Some (header @ join '' else '' (case_branches (M + 1)) @ overflow_branch (M + 1) @ trailer)"
    if "\<bar>M\<bar> < 10 ^ int_max_str_digits" for M
    using that by (simp add: main_str_int cases_def)
  have s: "N' < 10 ^ int_max_str_digits \<longrightarrow>
           files (main version [str_int N] fs) ''to_tie.hpp''
             = Some (header @ join '' else '' (case_branches (N + 1)) @ overflow_branch (N + 1) @ trailer)
           \<and> files (main version [str_int N'] fs) ''to_tie.hpp''
             = Some (header @ join '' else '' (case_branches (N' + 1)) @ overflow_branch (N' + 1) @ trailer)"
  proof
    assume l: "N' < 10 ^ int_max_str_digits"
    have "\<bar>N\<bar> < 10 ^ int_max_str_digits" "\<bar>N'\<bar> < 10 ^ int_max_str_digits" using n l by simp_all
    then show "files (main version [str_int N] fs) ''to_tie.hpp''
             = Some (header @ join '' else '' (case_branches (N + 1)) @ overflow_branch (N + 1) @ trailer)
           \<and> files (main version [str_int N'] fs) ''to_tie.hpp''
             = Some (header @ join '' else '' (case_branches (N' + 1)) @ overflow_branch (N' + 1) @ trailer)"
      using f [of N] f [of N'] by (simp only: simp_thms)
  qed
  have d: "str_int (N + 1) \<noteq> str_int (N' + 1)" using n by (simp add: str_int_inj)
  from p k g [of N] g [of N'] s d show ?thesis
    by (simp only: case_branches_upto overflow_branch_def simp_thms)
qed

theorem monotonic_extension_witness:
  "strict_prefix (case_branches (1 + 1)) (case_branches (3 + 1))
   \<and> case_branches (1 + 1) = [generate_tuple 0, generate_tuple 1]
   \<and> case_branches (3 + 1) = [generate_tuple 0, generate_tuple 1, generate_tuple 2, generate_tuple 3]"
proof -
  have "(0::int) \<le> 1" "(1::int) < 3" by simp_all
  from monotonic_extension [OF this, of argparse_older Map.empty]
  have "strict_prefix (case_branches (1 + 1)) (case_branches (3 + 1))"
    and "case_branches (1 + 1) = map generate_tuple [0..1]"
    and "case_branches (3 + 1) = map generate_tuple [0..3]"
    by blast+
  then show ?thesis by (simp add: upto_rec1)
qed

lemma parse_args_missing: "parse_args version [] = Usage_error"
  by (simp add: parse_args_def)

lemma parse_args_not_int:
  assumes "py_int s = None" "read_word version s \<noteq> Help"
  shows "parse_args version [s] = Usage_error"
proof (cases "s = ''--''")
  case True
  then show ?thesis by (simp add: parse_args_def)
next
  case False
  then show ?thesis using assms
    by (cases "read_word version s") (simp_all add: parse_args_def)
qed

lemma parse_args_help:
  assumes "read_word version s = Help"
  shows "parse_args version [s] = Help_exit"
proof -
  have "read_word version ''--'' = Positional" by (simp add: read_word_def)
  then have "s \<noteq> ''--''" using assms by auto
  then show ?thesis using assms by (simp add: parse_args_def)
qed

lemma read_word_help_spellings:
  "read_word version ''-h'' = Help" "read_word version ''--help'' = Help"
  "read_word version ''--he'' = Help" "read_word version ''-hh'' = Help"
  by (simp_all add: read_word_def)

text \<open>
  Sample runs: the cluster \<^verbatim>\<open>-hh\<close> prints the help in every version; \<^verbatim>\<open>-hx\<close> is a usage error in the older
  argparse, also when \<^verbatim>\<open>-h\<close> follows, and prints the help in the newer one; an unknown
  option alone is a usage error in every version.
\<close>

lemma cluster_runs:
  "main version [''-hh''] fs = \<lparr>status = 0, message = Help_message, files = fs\<rparr>"
  "main argparse_older [''-hx'', ''-h''] fs = \<lparr>status = 2, message = Usage_diagnostic, files = fs\<rparr>"
  "main argparse_newer [''-hx'', ''-h''] fs = \<lparr>status = 0, message = Help_message, files = fs\<rparr>"
  "main argparse_older [''-x''] fs = \<lparr>status = 2, message = Usage_diagnostic, files = fs\<rparr>"
  "main argparse_newer [''-x''] fs = \<lparr>status = 2, message = Usage_diagnostic, files = fs\<rparr>"
  "main version [''--foo''] fs = \<lparr>status = 2, message = Usage_diagnostic, files = fs\<rparr>"
  by (simp_all add: main_def parse_args_def read_word_def argparse_older_def argparse_newer_def
      negative_number_def negative_integer_def chomp_def is_digit_def)

text \<open>
  Claim C7, as stated, fails: the argument \<^verbatim>\<open>-h\<close> is not an integer (and the
  positional argument is then missing), yet the process prints the help text and
  exits with status 0.
\<close>

theorem help_counterexample:
  "py_int ''-h'' = None
   \<and> main argparse_older [''-h''] Map.empty = \<lparr>status = 0, message = Help_message, files = Map.empty\<rparr>"
proof -
  have "py_int ''-h'' = None" by code_simp
  moreover have "parse_args argparse_older [''-h''] = Help_exit"
    by (rule parse_args_help) (rule read_word_help_spellings)
  ultimately show ?thesis by (simp only: main_Help_exit simp_thms)
qed

text \<open>
  Claim C7, amended. When the command line is empty, or holds one word that is not an
  integer and is not read as a request for help, the process exits with status 2 after
  the usage diagnostic and leaves the file system as it was; this covers \<^verbatim>\<open>abc\<close>, the
  empty word, and the unknown options such as \<^verbatim>\<open>-x\<close> and \<^verbatim>\<open>--foo\<close>. One word read as a
  request for help (\<^verbatim>\<open>-h\<close>, \<^verbatim>\<open>--help\<close>, its abbreviations, \<^verbatim>\<open>-hh\<close>) prints the help text and
  exits with status 0, the file system unchanged. On any command line, when parsing
  yields no integer the process ends in one of these two ways, and only a run whose
  parsing yields an integer changes the file system.
\<close>

theorem invalid_invocation:
  "(argv = [] \<or> (\<exists>s. argv = [s] \<and> py_int s = None \<and> read_word version s \<noteq> Help)
      \<longrightarrow> main version argv fs = \<lparr>status = 2, message = Usage_diagnostic, files = fs\<rparr>)
   \<and> ((\<exists>s. argv = [s] \<and> read_word version s = Help)
      \<longrightarrow> main version argv fs = \<lparr>status = 0, message = Help_message, files = fs\<rparr>)
   \<and> (argv = [''-h''] \<or> argv = [''--help'']
      \<longrightarrow> main version argv fs = \<lparr>status = 0, message = Help_message, files = fs\<rparr>)
   \<and> ((\<forall>a. parse_args version argv \<noteq> Namespace a)
      \<longrightarrow> main version argv fs = \<lparr>status = 2, message = Usage_diagnostic, files = fs\<rparr>
          \<or> main version argv fs = \<lparr>status = 0, message = Help_message, files = fs\<rparr>)
   \<and> (files (main version argv fs) \<noteq> fs \<longrightarrow> (\<exists>a. parse_args version argv = Namespace a))"
proof -
  have 1: "argv = [] \<or> (\<exists>s. argv = [s] \<and> py_int s = None \<and> read_word version s \<noteq> Help)
      \<longrightarrow> main version argv fs = \<lparr>status = 2, message = Usage_diagnostic, files = fs\<rparr>"
    using parse_args_missing [of version] parse_args_not_int [of _ version]
      main_Usage_error [of version argv fs]
    by blast
  have 2: "(\<exists>s. argv = [s] \<and> read_word version s = Help)
      \<longrightarrow> main version argv fs = \<lparr>status = 0, message = Help_message, files = fs\<rparr>"
    using parse_args_help [of version] main_Help_exit [of version argv fs] by blast
  have 3: "argv = [''-h''] \<or> argv = [''--help'']
      \<longrightarrow> main version argv fs = \<lparr>status = 0, message = Help_message, files = fs\<rparr>"
    using 2 read_word_help_spellings(1,2) [of version] by blast
  have 4: "(\<forall>a. parse_args version argv \<noteq> Namespace a)
      \<longrightarrow> main version argv fs = \<lparr>status = 2, message = Usage_diagnostic, files = fs\<rparr>
          \<or> main version argv fs = \<lparr>status = 0, message = Help_message, files = fs\<rparr>"
    using main_Usage_error [of version argv fs] main_Help_exit [of version argv fs]
    by (cases "parse_args version argv") blast+
  have 5: "files (main version argv fs) \<noteq> fs \<longrightarrow> (\<exists>a. parse_args version argv = Namespace a)"
    using main_Usage_error [of version argv fs] main_Help_exit [of version argv fs]
    by (cases "parse_args version argv") simp_all
  from 1 2 3 4 5 show ?thesis by (simp only: simp_thms)
qed

theorem invalid_invocation_witness:
  "py_int ''abc'' = None
   \<and> main argparse_older [''abc''] Map.empty = \<lparr>status = 2, message = Usage_diagnostic, files = Map.empty\<rparr>
   \<and> main argparse_older [''-x''] Map.empty = \<lparr>status = 2, message = Usage_diagnostic, files = Map.empty\<rparr>
   \<and> main argparse_older [] Map.empty = \<lparr>status = 2, message = Usage_diagnostic, files = Map.empty\<rparr>"
proof -
  have p: "py_int ''abc'' = None" by code_simp
  have q: "py_int ''-x'' = None" by code_simp
  have "read_word argparse_older ''abc'' \<noteq> Help" by (simp add: read_word_def)
  with p have "\<exists>s. [''abc''] = [s] \<and> py_int s = None \<and> read_word argparse_older s \<noteq> Help" by simp
  with invalid_invocation [of "[''abc'']" argparse_older Map.empty]
  have a: "main argparse_older [''abc''] Map.empty = \<lparr>status = 2, message = Usage_diagnostic, files = Map.empty\<rparr>"
    by blast
  have "read_word argparse_older ''-x'' \<noteq> Help"
    by (simp add: read_word_def argparse_older_def negative_integer_def negative_number_def chomp_def is_digit_def)
  with q have "\<exists>s. [''-x''] = [s] \<and> py_int s = None \<and> read_word argparse_older s \<noteq> Help" by simp
  with invalid_invocation [of "[''-x'']" argparse_older Map.empty]
  have b: "main argparse_older [''-x''] Map.empty = \<lparr>status = 2, message = Usage_diagnostic, files = Map.empty\<rparr>"
    by blast
  from invalid_invocation [of "[]" argparse_older Map.empty]
  have c: "main argparse_older [] Map.empty = \<lparr>status = 2, message = Usage_diagnostic, files = Map.empty\<rparr>"
    by blast
  from p a b c show ?thesis by (simp only: simp_thms)
qed

text \<open>
  Claim C8. Two runs whose command lines parse to the same bound \<open>N\<close> write the same
  text to \<^verbatim>\<open>to_tie.hpp\<close>, whatever the file system held before (the file is truncated
  when opened) and whatever the argparse version; running again on the result changes
  nothing.
\<close>

theorem generation_deterministic:
  "parse_args version argv = Namespace N \<Longrightarrow> parse_args version' argv' = Namespace N \<Longrightarrow>
     files (main version argv fs) ''to_tie.hpp'' = files (main version' argv' fs') ''to_tie.hpp''
     \<and> files (main version argv fs) ''to_tie.hpp''
         = Some (header @ cases (N + 1) @ overflow_branch (N + 1) @ trailer)
     \<and> main version argv (files (main version argv fs)) = main version argv fs"
  by (simp add: main_Namespace)

theorem generation_deterministic_witness:
  "files (main argparse_older [''2''] Map.empty) ''to_tie.hpp''
     = files (main argparse_newer [''+2''] [''to_tie.hpp'' \<mapsto> ''old text'']) ''to_tie.hpp''
   \<and> files (main argparse_older [''2''] Map.empty) ''to_tie.hpp''
     = Some (header @ cases (2 + 1) @ overflow_branch (2 + 1) @ trailer)"
proof -
  have a: "parse_args argparse_older [''2''] = Namespace 2" by (rule parse_args_2)
  have "py_int ''+2'' = Some 2" by code_simp
  then have b: "parse_args argparse_newer [''+2''] = Namespace 2"
    by (simp add: parse_args_def read_word_def)
  from generation_deterministic [OF a b, of Map.empty "[''to_tie.hpp'' \<mapsto> ''old text'']"]
  show ?thesis by blast
qed

end
